theory Spec2Isabelle
  imports Main "HOL-Library.Word"
begin

unbundle bit_operations_syntax

section \<open>Data model of \<open>hwy/contrib/thread_pool/spin.h\<close>\<close>

type_synonym u32 = "32 word"
type_synonym u64 = "64 word"

text \<open>\<open>struct SpinResult\<close>: both fields are \<open>uint32_t\<close>.\<close>

record SpinResult =
  current :: u32
  reps :: u32

text \<open>\<open>enum class SpinType\<close>, in declaration order; \<open>SpinType_int\<close> is
  \<open>static_cast<int>\<close>, the position of the enumerator.\<close>

datatype SpinType = kMonitorX | kUMonitor | kPause

fun SpinType_int :: "SpinType \<Rightarrow> int" where
  "SpinType_int kMonitorX = 0"
| "SpinType_int kUMonitor = 1"
| "SpinType_int kPause = 2"

fun ToString :: "SpinType \<Rightarrow> string" where
  "ToString kMonitorX = ''MonitorX_C1''"
| "ToString kUMonitor = ''UMonitor_C0.2''"
| "ToString kPause = ''Pause''"

section \<open>The watched location and the waiting thread\<close>

text \<open>
  What the waiting thread does, in program order. \<open>Load v\<close> is
  \<open>watched.load(std::memory_order_acquire)\<close> returning \<open>v\<close>; \<open>PauseHint\<close> is
  \<open>hwy::Pause()\<close>; \<open>MonitorX ext hints\<close> is \<open>_mm_monitorx(&watched, ext, hints)\<close>;
  \<open>MWaitX ext hints cycles\<close> is \<open>_mm_mwaitx\<close>; \<open>UMonitor\<close> is \<open>_umonitor(&watched)\<close>;
  \<open>UMWait control deadline\<close> is \<open>_umwait\<close>.
\<close>

datatype event =
    Load u32
  | PauseHint
  | MonitorX u32 u32
  | MWaitX u32 u32 u32
  | UMonitor
  | UMWait u32 u64

text \<open>
  The \<open>std::atomic<uint32_t>\<close> is shared with other threads. \<open>watched\<close> is its content,
  \<open>others\<close> is what the other threads do to it: one entry for each load of the waiting
  thread, \<open>Some v\<close> when the last store that landed since the previous load wrote \<open>v\<close>,
  \<open>None\<close> when no store landed. \<open>trace\<close> records the events of the waiting thread.
  How long a pause hint or a wait instruction lasts shows only in the stores that have
  landed by the next load, so these instructions leave the location and \<open>others\<close> alone.
  The loops have no bound on their rounds. The list \<open>others\<close> is finite: a wait that is
  still unsatisfied when it is used up has not returned within the stores described,
  which a loop reports as \<open>None\<close>.
\<close>

record world =
  watched :: u32
  others :: "u32 option list"
  trace :: "event list"

definition env_step :: "u32 option \<Rightarrow> u32 \<Rightarrow> u32" where
  "env_step st m = (case st of None \<Rightarrow> m | Some v \<Rightarrow> v)"

definition emit :: "event \<Rightarrow> world \<Rightarrow> world" where
  "emit e w = w\<lparr>trace := trace w @ [e]\<rparr>"

definition load_acquire :: "world \<Rightarrow> (u32 \<times> world) option" where
  "load_acquire w =
     (case others w of
        [] \<Rightarrow> None
      | st # rest \<Rightarrow>
          let m = env_step st (watched w)
          in Some (m, emit (Load m) (w\<lparr>watched := m, others := rest\<rparr>)))"

definition Pause :: "world \<Rightarrow> world" where
  "Pause w = emit PauseHint w"

definition mm_monitorx :: "u32 \<Rightarrow> u32 \<Rightarrow> world \<Rightarrow> world" where
  "mm_monitorx ext hints w = emit (MonitorX ext hints) w"

definition mm_mwaitx :: "u32 \<Rightarrow> u32 \<Rightarrow> u32 \<Rightarrow> world \<Rightarrow> world" where
  "mm_mwaitx ext hints cycles w = emit (MWaitX ext hints cycles) w"

definition umonitor :: "world \<Rightarrow> world" where
  "umonitor w = emit UMonitor w"

definition umwait :: "u32 \<Rightarrow> u64 \<Rightarrow> world \<Rightarrow> world" where
  "umwait control deadline w = emit (UMWait control deadline) w"

section \<open>\<open>SpinPause\<close>\<close>

function SpinPause_UntilDifferent_loop :: "u32 \<Rightarrow> u32 \<Rightarrow> world \<Rightarrow> (SpinResult \<times> world) option" where
  "SpinPause_UntilDifferent_loop prev n w =
     (case load_acquire w of
        None \<Rightarrow> None
      | Some (cur, w1) \<Rightarrow>
          if cur \<noteq> prev then Some (\<lparr>current = cur, reps = n\<rparr>, w1)
          else SpinPause_UntilDifferent_loop prev (n + 1) (Pause w1))"
  by pat_completeness auto
termination
  by (relation "measure (\<lambda>(prev, n, w). length (others w))")
     (auto simp: Pause_def emit_def load_acquire_def Let_def split: list.splits)

declare SpinPause_UntilDifferent_loop.simps [simp del]

text \<open>\<open>size_t\<close> is as wide as the target makes it: the counters of \<open>UntilEqual\<close> are
  words of any length \<open>'s\<close>.\<close>

function SpinPause_UntilEqual_loop :: "u32 \<Rightarrow> 's::len word \<Rightarrow> world \<Rightarrow> ('s word \<times> world) option" where
  "SpinPause_UntilEqual_loop expected n w =
     (case load_acquire w of
        None \<Rightarrow> None
      | Some (cur, w1) \<Rightarrow>
          if cur = expected then Some (n, w1)
          else SpinPause_UntilEqual_loop expected (n + 1) (Pause w1))"
  by pat_completeness auto
termination
  by (relation "measure (\<lambda>(expected, n, w). length (others w))")
     (auto simp: Pause_def emit_def load_acquire_def Let_def split: list.splits)

declare SpinPause_UntilEqual_loop.simps [simp del]

definition SpinPause_UntilDifferent :: "u32 \<Rightarrow> world \<Rightarrow> (SpinResult \<times> world) option" where
  "SpinPause_UntilDifferent prev w = SpinPause_UntilDifferent_loop prev 0 w"

definition SpinPause_UntilEqual :: "u32 \<Rightarrow> world \<Rightarrow> ('s::len word \<times> world) option" where
  "SpinPause_UntilEqual expected w = SpinPause_UntilEqual_loop expected 0 w"

section \<open>\<open>SpinMonitorX\<close>\<close>

definition SpinMonitorX_kHints :: u32 where
  "SpinMonitorX_kHints = 0x0"

definition SpinMonitorX_kExtensions :: u32 where
  "SpinMonitorX_kExtensions = 0"

function SpinMonitorX_UntilDifferent_loop :: "u32 \<Rightarrow> u32 \<Rightarrow> world \<Rightarrow> (SpinResult \<times> world) option" where
  "SpinMonitorX_UntilDifferent_loop prev n w =
     (case load_acquire w of
        None \<Rightarrow> None
      | Some (cur, w1) \<Rightarrow>
          if cur \<noteq> prev then Some (\<lparr>current = cur, reps = n\<rparr>, w1)
          else
            (case load_acquire (mm_monitorx 0 0 w1) of
               None \<Rightarrow> None
             | Some (cur2, w3) \<Rightarrow>
                 if cur2 \<noteq> prev then Some (\<lparr>current = cur2, reps = n\<rparr>, w3)
                 else SpinMonitorX_UntilDifferent_loop prev (n + 1)
                        (mm_mwaitx SpinMonitorX_kExtensions SpinMonitorX_kHints 0 w3)))"
  by pat_completeness auto
termination
  by (relation "measure (\<lambda>(prev, n, w). length (others w))")
     (auto simp: mm_monitorx_def mm_mwaitx_def emit_def load_acquire_def Let_def split: list.splits)

declare SpinMonitorX_UntilDifferent_loop.simps [simp del]

function SpinMonitorX_UntilEqual_loop :: "u32 \<Rightarrow> 's::len word \<Rightarrow> world \<Rightarrow> ('s word \<times> world) option" where
  "SpinMonitorX_UntilEqual_loop expected n w =
     (case load_acquire w of
        None \<Rightarrow> None
      | Some (cur, w1) \<Rightarrow>
          if cur = expected then Some (n, w1)
          else
            (case load_acquire (mm_monitorx 0 0 w1) of
               None \<Rightarrow> None
             | Some (cur2, w3) \<Rightarrow>
                 if cur2 = expected then Some (n, w3)
                 else SpinMonitorX_UntilEqual_loop expected (n + 1)
                        (mm_mwaitx SpinMonitorX_kExtensions SpinMonitorX_kHints 0 w3)))"
  by pat_completeness auto
termination
  by (relation "measure (\<lambda>(expected, n, w). length (others w))")
     (auto simp: mm_monitorx_def mm_mwaitx_def emit_def load_acquire_def Let_def split: list.splits)

declare SpinMonitorX_UntilEqual_loop.simps [simp del]

definition SpinMonitorX_UntilDifferent :: "u32 \<Rightarrow> world \<Rightarrow> (SpinResult \<times> world) option" where
  "SpinMonitorX_UntilDifferent prev w = SpinMonitorX_UntilDifferent_loop prev 0 w"

definition SpinMonitorX_UntilEqual :: "u32 \<Rightarrow> world \<Rightarrow> ('s::len word \<times> world) option" where
  "SpinMonitorX_UntilEqual expected w = SpinMonitorX_UntilEqual_loop expected 0 w"

section \<open>\<open>SpinUMonitor\<close>\<close>

definition SpinUMonitor_kControl :: u32 where
  "SpinUMonitor_kControl = 0"

definition SpinUMonitor_kDeadline :: u64 where
  "SpinUMonitor_kDeadline = NOT 0"

function SpinUMonitor_UntilDifferent_loop :: "u32 \<Rightarrow> u32 \<Rightarrow> world \<Rightarrow> (SpinResult \<times> world) option" where
  "SpinUMonitor_UntilDifferent_loop prev n w =
     (case load_acquire w of
        None \<Rightarrow> None
      | Some (cur, w1) \<Rightarrow>
          if cur \<noteq> prev then Some (\<lparr>current = cur, reps = n\<rparr>, w1)
          else
            (case load_acquire (umonitor w1) of
               None \<Rightarrow> None
             | Some (cur2, w3) \<Rightarrow>
                 if cur2 \<noteq> prev then Some (\<lparr>current = cur2, reps = n\<rparr>, w3)
                 else SpinUMonitor_UntilDifferent_loop prev (n + 1)
                        (umwait SpinUMonitor_kControl SpinUMonitor_kDeadline w3)))"
  by pat_completeness auto
termination
  by (relation "measure (\<lambda>(prev, n, w). length (others w))")
     (auto simp: umonitor_def umwait_def emit_def load_acquire_def Let_def split: list.splits)

declare SpinUMonitor_UntilDifferent_loop.simps [simp del]

function SpinUMonitor_UntilEqual_loop :: "u32 \<Rightarrow> 's::len word \<Rightarrow> world \<Rightarrow> ('s word \<times> world) option" where
  "SpinUMonitor_UntilEqual_loop expected n w =
     (case load_acquire w of
        None \<Rightarrow> None
      | Some (cur, w1) \<Rightarrow>
          if cur = expected then Some (n, w1)
          else
            (case load_acquire (umonitor w1) of
               None \<Rightarrow> None
             | Some (cur2, w3) \<Rightarrow>
                 if cur2 = expected then Some (n, w3)
                 else SpinUMonitor_UntilEqual_loop expected (n + 1)
                        (umwait SpinUMonitor_kControl SpinUMonitor_kDeadline w3)))"
  by pat_completeness auto
termination
  by (relation "measure (\<lambda>(expected, n, w). length (others w))")
     (auto simp: umonitor_def umwait_def emit_def load_acquire_def Let_def split: list.splits)

declare SpinUMonitor_UntilEqual_loop.simps [simp del]

definition SpinUMonitor_UntilDifferent :: "u32 \<Rightarrow> world \<Rightarrow> (SpinResult \<times> world) option" where
  "SpinUMonitor_UntilDifferent prev w = SpinUMonitor_UntilDifferent_loop prev 0 w"

definition SpinUMonitor_UntilEqual :: "u32 \<Rightarrow> world \<Rightarrow> ('s::len word \<times> world) option" where
  "SpinUMonitor_UntilEqual expected w = SpinUMonitor_UntilEqual_loop expected 0 w"

section \<open>Strategy instances\<close>

text \<open>The three policy classes have no data members: an instance is its class. \<open>Type\<close>,
  \<open>UntilDifferent\<close> and \<open>UntilEqual\<close> are the member functions, resolved on the class of the
  instance as the compiler does for \<open>spin.UntilDifferent(...)\<close> in a generic caller.\<close>

datatype Spin = SpinPause | SpinMonitorX | SpinUMonitor

fun Type :: "Spin \<Rightarrow> SpinType" where
  "Type SpinPause = kPause"
| "Type SpinMonitorX = kMonitorX"
| "Type SpinUMonitor = kUMonitor"

fun UntilDifferent :: "Spin \<Rightarrow> u32 \<Rightarrow> world \<Rightarrow> (SpinResult \<times> world) option" where
  "UntilDifferent SpinPause prev w = SpinPause_UntilDifferent prev w"
| "UntilDifferent SpinMonitorX prev w = SpinMonitorX_UntilDifferent prev w"
| "UntilDifferent SpinUMonitor prev w = SpinUMonitor_UntilDifferent prev w"

fun UntilEqual :: "Spin \<Rightarrow> u32 \<Rightarrow> world \<Rightarrow> ('s::len word \<times> world) option" where
  "UntilEqual SpinPause expected w = SpinPause_UntilEqual expected w"
| "UntilEqual SpinMonitorX expected w = SpinMonitorX_UntilEqual expected w"
| "UntilEqual SpinUMonitor expected w = SpinUMonitor_UntilEqual expected w"

section \<open>\<open>DetectSpin\<close>\<close>

text \<open>The two macros that decide which classes and which branches exist in a build.\<close>

record build =
  HWY_ENABLE_MONITORX :: bool
  HWY_ENABLE_UMONITOR :: bool

text \<open>The processor as \<open>hwy/x86_cpuid.h\<close> shows it: \<open>x86::IsAMD()\<close>, \<open>x86::MaxLevel()\<close> and
  \<open>x86::Cpuid(level, count, abcd)\<close>, which fills the four registers
  \<open>abcd[0..3]\<close> = EAX, EBX, ECX, EDX. That header is not part of the sources at hand, so
  the three queries are parameters.\<close>

type_synonym abcd = "u32 \<times> u32 \<times> u32 \<times> u32"

record cpu =
  IsAMD :: bool
  MaxLevel :: u32
  Cpuid :: "u32 \<Rightarrow> u32 \<Rightarrow> abcd"

fun abcd_2 :: "abcd \<Rightarrow> u32" where
  "abcd_2 (a, b, c, d) = c"

text \<open>Modelled from the spec: \<open>x86::IsBitSet(reg, index)\<close> of \<open>hwy/x86_cpuid.h\<close>, which the
  sources at hand do not hold; the spec has the detector test whether "the specific
  feature bit" of the register is set.\<close>

definition IsBitSet :: "u32 \<Rightarrow> nat \<Rightarrow> bool" where
  "IsBitSet reg index = (reg AND push_bit index 1 \<noteq> 0)"

text \<open>The lambda \<open>enabled\<close>; \<open>disabled\<close> is an \<open>int\<close>, of which only the bit pattern is used.\<close>

definition enabled :: "u32 \<Rightarrow> SpinType \<Rightarrow> bool" where
  "enabled disabled type = (disabled AND push_bit (nat (SpinType_int type)) 1 = 0)"

definition Pause_warning :: string where
  "Pause_warning = ''Ignoring attempt to disable Pause, it is the only option left.''"

text \<open>Each \<open>#if\<close> block returns or falls through: \<open>Some\<close> is its \<open>return\<close>.\<close>

definition DetectSpin_MonitorX :: "build \<Rightarrow> cpu \<Rightarrow> u32 \<Rightarrow> SpinType option" where
  "DetectSpin_MonitorX bld c disabled =
     (if HWY_ENABLE_MONITORX bld then
        (if enabled disabled kMonitorX \<and> IsAMD c then
           (let abcd = Cpuid c 0x80000001 0
            in if IsBitSet (abcd_2 abcd) 29 then Some kMonitorX else None)
         else None)
      else None)"

definition DetectSpin_UMonitor :: "build \<Rightarrow> cpu \<Rightarrow> u32 \<Rightarrow> SpinType option" where
  "DetectSpin_UMonitor bld c disabled =
     (if HWY_ENABLE_UMONITOR bld then
        (if enabled disabled kUMonitor \<and> MaxLevel c \<ge> 7 then
           (let abcd = Cpuid c 7 0
            in if IsBitSet (abcd_2 abcd) 5 then Some kUMonitor else None)
         else None)
      else None)"

text \<open>The result and the messages given to \<open>HWY_WARN\<close>, in order.\<close>

definition DetectSpin :: "build \<Rightarrow> cpu \<Rightarrow> u32 \<Rightarrow> SpinType \<times> string list" where
  "DetectSpin bld c disabled =
     (case DetectSpin_MonitorX bld c disabled of
        Some t \<Rightarrow> (t, [])
      | None \<Rightarrow>
          (case DetectSpin_UMonitor bld c disabled of
             Some t \<Rightarrow> (t, [])
           | None \<Rightarrow>
               (kPause, if \<not> enabled disabled kPause then [Pause_warning] else [])))"

section \<open>\<open>CallWithSpin\<close>\<close>

text \<open>A \<open>SpinType\<close> object holds a value of the underlying type \<open>int\<close>, which need not be that
  of an enumerator: the \<open>switch\<close> is over that value, and the labels \<open>kMonitorX\<close> and
  \<open>kUMonitor\<close> exist only in a build that enables them. \<open>func\<close> acts on the state \<open>'st\<close> of
  its caller.\<close>

definition CallWithSpin :: "build \<Rightarrow> int \<Rightarrow> (Spin \<Rightarrow> 'st \<Rightarrow> 'st) \<Rightarrow> 'st \<Rightarrow> 'st" where
  "CallWithSpin bld spin_type func st =
     (if HWY_ENABLE_MONITORX bld \<and> spin_type = SpinType_int kMonitorX then func SpinMonitorX st
      else if HWY_ENABLE_UMONITOR bld \<and> spin_type = SpinType_int kUMonitor then func SpinUMonitor st
      else func SpinPause st)"

section \<open>What the loads see\<close>

text \<open>The values that successive loads return, from the content \<open>m\<close> of the location and
  the stores of the other threads.\<close>

fun observed :: "u32 \<Rightarrow> u32 option list \<Rightarrow> u32 list" where
  "observed m [] = []"
| "observed m (st # rest) = env_step st m # observed (env_step st m) rest"

text \<open>The events of the rounds that did not return, from the values their loads saw:
  \<open>pause_rounds\<close> for a load followed by the pause hint, \<open>armed_rounds arm wt\<close> for
  load, arm, load, wait, the last round stopping after the arm when the values end there.\<close>

fun pause_rounds :: "u32 list \<Rightarrow> event list" where
  "pause_rounds [] = []"
| "pause_rounds (a # xs) = Load a # PauseHint # pause_rounds xs"

fun armed_rounds :: "event \<Rightarrow> event \<Rightarrow> u32 list \<Rightarrow> event list" where
  "armed_rounds arm wt [] = []"
| "armed_rounds arm wt [a] = [Load a, arm]"
| "armed_rounds arm wt (a # b # xs) = Load a # arm # Load b # wt # armed_rounds arm wt xs"

text \<open>The loads that did not satisfy the condition \<open>c\<close> of a wait, the first value that
  satisfies it, and the world in which a wait returns: after \<open>k\<close> failed loads with the
  events \<open>evs\<close> and a load of \<open>v\<close>.\<close>

definition failed_loads :: "(u32 \<Rightarrow> bool) \<Rightarrow> world \<Rightarrow> u32 list" where
  "failed_loads c w = takeWhile (\<lambda>x. \<not> c x) (observed (watched w) (others w))"

definition first_hit :: "(u32 \<Rightarrow> bool) \<Rightarrow> world \<Rightarrow> u32 option" where
  "first_hit c w = find c (observed (watched w) (others w))"

definition returned :: "world \<Rightarrow> event list \<Rightarrow> nat \<Rightarrow> u32 \<Rightarrow> world" where
  "returned w evs k v =
     w\<lparr>watched := v, others := drop (Suc k) (others w), trace := trace w @ evs @ [Load v]\<rparr>"

text \<open>The instructions of each class between its loads, and the rounds that \<open>k\<close> failed
  loads complete: one load a round in \<open>SpinPause\<close>, two in the monitor classes.\<close>

fun rounds_events :: "Spin \<Rightarrow> u32 list \<Rightarrow> event list" where
  "rounds_events SpinPause xs = pause_rounds xs"
| "rounds_events SpinMonitorX xs = armed_rounds (MonitorX 0 0) (MWaitX 0 0 0) xs"
| "rounds_events SpinUMonitor xs = armed_rounds UMonitor (UMWait 0 (NOT 0)) xs"

fun rounds_done :: "Spin \<Rightarrow> nat \<Rightarrow> nat" where
  "rounds_done SpinPause k = k"
| "rounds_done SpinMonitorX k = k div 2"
| "rounds_done SpinUMonitor k = k div 2"




text \<open>A location that holds 0 at the first load of the waiting thread and 7 at the
  second.\<close>

definition late_store :: world where
  "late_store = \<lparr>watched = 0, others = [None, Some 7], trace = []\<rparr>"

text \<open>The same with the 7 at the third load.\<close>

definition later_store :: world where
  "later_store = \<lparr>watched = 0, others = [None, None, Some 7], trace = []\<rparr>"

text \<open>The values that the loads among some events returned, in order.\<close>

fun loads_of :: "event list \<Rightarrow> u32 list" where
  "loads_of [] = []"
| "loads_of (Load v # es) = v # loads_of es"
| "loads_of (e # es) = loads_of es"

text \<open>A location that the other threads set to 3 and later to 7 while the waiting thread
  loads it.\<close>

definition busy_store :: world where
  "busy_store = \<lparr>watched = 0, others = [None, Some 3, None, Some 7, None], trace = []\<rparr>"

text \<open>Which kinds a build holds: \<open>SpinPause\<close> always, the other two under their macro.\<close>

fun compiled :: "build \<Rightarrow> SpinType \<Rightarrow> bool" where
  "compiled bld kMonitorX = HWY_ENABLE_MONITORX bld"
| "compiled bld kUMonitor = HWY_ENABLE_UMONITOR bld"
| "compiled bld kPause = True"

text \<open>A \<open>func\<close> that keeps a log of the instances it is called with.\<close>

definition record_instance :: "Spin \<Rightarrow> Spin list \<Rightarrow> Spin list" where
  "record_instance spin calls = calls @ [spin]"

section \<open>Builds and processors to run the detector on\<close>

text \<open>A build with both monitor classes and one with neither; a processor that reports
  MONITORX (AMD, ECX bit 29 of leaf \<open>0x80000001\<close>), one that reports WAITPKG (ECX bit 5 of
  leaf 7), and one that reports neither.\<close>

definition build_both :: build where
  "build_both = \<lparr>HWY_ENABLE_MONITORX = True, HWY_ENABLE_UMONITOR = True\<rparr>"

definition build_neither :: build where
  "build_neither = \<lparr>HWY_ENABLE_MONITORX = False, HWY_ENABLE_UMONITOR = False\<rparr>"

fun monitorx_cpuid :: "u32 \<Rightarrow> u32 \<Rightarrow> abcd" where
  "monitorx_cpuid level count = (if level = 0x80000001 then (0, 0, 0x20000000, 0) else (0, 0, 0, 0))"

fun waitpkg_cpuid :: "u32 \<Rightarrow> u32 \<Rightarrow> abcd" where
  "waitpkg_cpuid level count = (if level = 7 then (0, 0, 0x20, 0) else (0, 0, 0, 0))"

fun plain_cpuid :: "u32 \<Rightarrow> u32 \<Rightarrow> abcd" where
  "plain_cpuid level count = (0, 0, 0, 0)"

definition monitorx_cpu :: cpu where
  "monitorx_cpu = \<lparr>IsAMD = True, MaxLevel = 0x10, Cpuid = monitorx_cpuid\<rparr>"

definition waitpkg_cpu :: cpu where
  "waitpkg_cpu = \<lparr>IsAMD = False, MaxLevel = 0x20, Cpuid = waitpkg_cpuid\<rparr>"

definition plain_cpu :: cpu where
  "plain_cpu = \<lparr>IsAMD = False, MaxLevel = 0x0d, Cpuid = plain_cpuid\<rparr>"

section \<open>The loads and the events of the model\<close>

lemma others_emit [simp]: "others (emit e w) = others w"
  by (simp add: emit_def)

lemma watched_emit [simp]: "watched (emit e w) = watched w"
  by (simp add: emit_def)

lemma trace_emit [simp]: "trace (emit e w) = trace w @ [e]"
  by (simp add: emit_def)

lemma load_acquire_Some:
  "load_acquire w = Some (v, w') \<longleftrightarrow>
     (\<exists>st rest. others w = st # rest \<and> v = env_step st (watched w) \<and>
        w' = emit (Load v) (w\<lparr>watched := v, others := rest\<rparr>))"
  by (auto simp: load_acquire_def Let_def split: list.splits)

lemma load_acquire_Nil: "others w = [] \<Longrightarrow> load_acquire w = None"
  by (simp add: load_acquire_def)

section \<open>Each loop, from the values its loads see\<close>

lemma SpinPause_UntilDifferent_loop_char:
  "SpinPause_UntilDifferent_loop prev n w =
     map_option
       (\<lambda>v. (\<lparr>current = v, reps = n + of_nat (length (failed_loads (\<lambda>x. x \<noteq> prev) w))\<rparr>,
             returned w (pause_rounds (failed_loads (\<lambda>x. x \<noteq> prev) w))
               (length (failed_loads (\<lambda>x. x \<noteq> prev) w)) v))
       (first_hit (\<lambda>x. x \<noteq> prev) w)"
proof (induction prev n w rule: SpinPause_UntilDifferent_loop.induct)
  case (1 prev n w)
  show ?case
  proof (cases "others w")
    case Nil
    then show ?thesis
      by (subst SpinPause_UntilDifferent_loop.simps)
         (simp add: load_acquire_Nil failed_loads_def first_hit_def)
  next
    case (Cons st rest)
    define v1 where "v1 = env_step st (watched w)"
    define w1 where "w1 = emit (Load v1) (w\<lparr>watched := v1, others := rest\<rparr>)"
    have la1: "load_acquire w = Some (v1, w1)"
      by (simp add: load_acquire_def Cons v1_def w1_def Let_def)
    show ?thesis
    proof (cases "v1 \<noteq> prev")
      case True
      then show ?thesis
        by (subst SpinPause_UntilDifferent_loop.simps)
           (simp add: load_acquire_def Let_def Cons v1_def emit_def returned_def
              failed_loads_def first_hit_def)
    next
      case False
      from "1.IH" [OF la1 refl] False show ?thesis
        by (subst SpinPause_UntilDifferent_loop.simps)
           (simp add: load_acquire_def Let_def Cons v1_def w1_def Pause_def emit_def
              returned_def failed_loads_def first_hit_def add.assoc)
    qed
  qed
qed

lemma SpinPause_UntilEqual_loop_char:
  "SpinPause_UntilEqual_loop expected n w =
     map_option
       (\<lambda>v. (n + of_nat (length (failed_loads (\<lambda>x. x = expected) w)),
             returned w (pause_rounds (failed_loads (\<lambda>x. x = expected) w))
               (length (failed_loads (\<lambda>x. x = expected) w)) v))
       (first_hit (\<lambda>x. x = expected) w)"
proof (induction expected n w rule: SpinPause_UntilEqual_loop.induct)
  case (1 expected n w)
  show ?case
  proof (cases "others w")
    case Nil
    then show ?thesis
      by (subst SpinPause_UntilEqual_loop.simps)
         (simp add: load_acquire_Nil failed_loads_def first_hit_def)
  next
    case (Cons st rest)
    define v1 where "v1 = env_step st (watched w)"
    define w1 where "w1 = emit (Load v1) (w\<lparr>watched := v1, others := rest\<rparr>)"
    have la1: "load_acquire w = Some (v1, w1)"
      by (simp add: load_acquire_def Cons v1_def w1_def Let_def)
    show ?thesis
    proof (cases "v1 = expected")
      case True
      then show ?thesis
        by (subst SpinPause_UntilEqual_loop.simps)
           (simp add: load_acquire_def Let_def Cons v1_def emit_def returned_def
              failed_loads_def first_hit_def)
    next
      case False
      from "1.IH" [OF la1 refl] False show ?thesis
        by (subst SpinPause_UntilEqual_loop.simps)
           (simp add: load_acquire_def Let_def Cons v1_def w1_def Pause_def emit_def
              returned_def failed_loads_def first_hit_def add.assoc)
    qed
  qed
qed

lemma SpinMonitorX_UntilDifferent_loop_char:
  "SpinMonitorX_UntilDifferent_loop prev n w =
     map_option
       (\<lambda>v. (\<lparr>current = v, reps = n + of_nat (length (failed_loads (\<lambda>x. x \<noteq> prev) w) div 2)\<rparr>,
             returned w (armed_rounds (MonitorX 0 0) (MWaitX 0 0 0) (failed_loads (\<lambda>x. x \<noteq> prev) w))
               (length (failed_loads (\<lambda>x. x \<noteq> prev) w)) v))
       (first_hit (\<lambda>x. x \<noteq> prev) w)"
proof (induction prev n w rule: SpinMonitorX_UntilDifferent_loop.induct)
  case (1 prev n w)
  show ?case
  proof (cases "others w")
    case Nil
    then show ?thesis
      by (subst SpinMonitorX_UntilDifferent_loop.simps)
         (simp add: load_acquire_Nil failed_loads_def first_hit_def)
  next
    case (Cons st rest)
    define v1 where "v1 = env_step st (watched w)"
    define w1 where "w1 = emit (Load v1) (w\<lparr>watched := v1, others := rest\<rparr>)"
    have la1: "load_acquire w = Some (v1, w1)"
      by (simp add: load_acquire_def Cons v1_def w1_def Let_def)
    show ?thesis
    proof (cases "v1 \<noteq> prev")
      case True
      then show ?thesis
        by (subst SpinMonitorX_UntilDifferent_loop.simps)
           (simp add: load_acquire_def Let_def Cons v1_def emit_def returned_def
              failed_loads_def first_hit_def)
    next
      case miss1: False
      show ?thesis
      proof (cases rest)
        case Nil
        have "load_acquire (mm_monitorx 0 0 w1) = None"
          by (rule load_acquire_Nil) (simp add: mm_monitorx_def mm_mwaitx_def SpinMonitorX_kExtensions_def SpinMonitorX_kHints_def w1_def Nil)
        with miss1 show ?thesis
          by (subst SpinMonitorX_UntilDifferent_loop.simps)
             (simp add: load_acquire_def Let_def \<open>others w = st # rest\<close> Nil v1_def
                w1_def mm_monitorx_def mm_mwaitx_def SpinMonitorX_kExtensions_def SpinMonitorX_kHints_def emit_def failed_loads_def first_hit_def)
      next
        case (Cons st2 rest2)
        define v2 where "v2 = env_step st2 v1"
        define w3 where
          "w3 = emit (Load v2) ((mm_monitorx 0 0 w1)\<lparr>watched := v2, others := rest2\<rparr>)"
        have la2: "load_acquire (mm_monitorx 0 0 w1) = Some (v2, w3)"
          by (simp add: load_acquire_def Cons v2_def w1_def w3_def Let_def mm_monitorx_def mm_mwaitx_def SpinMonitorX_kExtensions_def SpinMonitorX_kHints_def)
        show ?thesis
        proof (cases "v2 \<noteq> prev")
          case True
          with miss1 show ?thesis
            by (subst SpinMonitorX_UntilDifferent_loop.simps)
               (simp add: load_acquire_def Let_def \<open>others w = st # rest\<close> Cons v1_def
                  v2_def w1_def w3_def mm_monitorx_def mm_mwaitx_def SpinMonitorX_kExtensions_def SpinMonitorX_kHints_def emit_def returned_def
                  failed_loads_def first_hit_def)
        next
          case miss2: False
          from "1.IH" [OF la1 refl miss1 la2 refl miss2] miss1 miss2 show ?thesis
            by (subst SpinMonitorX_UntilDifferent_loop.simps)
               (simp add: load_acquire_def Let_def \<open>others w = st # rest\<close> Cons v1_def
                  v2_def w1_def w3_def mm_monitorx_def mm_mwaitx_def SpinMonitorX_kExtensions_def SpinMonitorX_kHints_def emit_def returned_def
                  failed_loads_def first_hit_def add.assoc)
        qed
      qed
    qed
  qed
qed

lemma SpinMonitorX_UntilEqual_loop_char:
  "SpinMonitorX_UntilEqual_loop expected n w =
     map_option
       (\<lambda>v. (n + of_nat (length (failed_loads (\<lambda>x. x = expected) w) div 2),
             returned w (armed_rounds (MonitorX 0 0) (MWaitX 0 0 0) (failed_loads (\<lambda>x. x = expected) w))
               (length (failed_loads (\<lambda>x. x = expected) w)) v))
       (first_hit (\<lambda>x. x = expected) w)"
proof (induction expected n w rule: SpinMonitorX_UntilEqual_loop.induct)
  case (1 expected n w)
  show ?case
  proof (cases "others w")
    case Nil
    then show ?thesis
      by (subst SpinMonitorX_UntilEqual_loop.simps)
         (simp add: load_acquire_Nil failed_loads_def first_hit_def)
  next
    case (Cons st rest)
    define v1 where "v1 = env_step st (watched w)"
    define w1 where "w1 = emit (Load v1) (w\<lparr>watched := v1, others := rest\<rparr>)"
    have la1: "load_acquire w = Some (v1, w1)"
      by (simp add: load_acquire_def Cons v1_def w1_def Let_def)
    show ?thesis
    proof (cases "v1 = expected")
      case True
      then show ?thesis
        by (subst SpinMonitorX_UntilEqual_loop.simps)
           (simp add: load_acquire_def Let_def Cons v1_def emit_def returned_def
              failed_loads_def first_hit_def)
    next
      case miss1: False
      show ?thesis
      proof (cases rest)
        case Nil
        have "load_acquire (mm_monitorx 0 0 w1) = None"
          by (rule load_acquire_Nil) (simp add: mm_monitorx_def mm_mwaitx_def SpinMonitorX_kExtensions_def SpinMonitorX_kHints_def w1_def Nil)
        with miss1 show ?thesis
          by (subst SpinMonitorX_UntilEqual_loop.simps)
             (simp add: load_acquire_def Let_def \<open>others w = st # rest\<close> Nil v1_def
                w1_def mm_monitorx_def mm_mwaitx_def SpinMonitorX_kExtensions_def SpinMonitorX_kHints_def emit_def failed_loads_def first_hit_def)
      next
        case (Cons st2 rest2)
        define v2 where "v2 = env_step st2 v1"
        define w3 where
          "w3 = emit (Load v2) ((mm_monitorx 0 0 w1)\<lparr>watched := v2, others := rest2\<rparr>)"
        have la2: "load_acquire (mm_monitorx 0 0 w1) = Some (v2, w3)"
          by (simp add: load_acquire_def Cons v2_def w1_def w3_def Let_def mm_monitorx_def mm_mwaitx_def SpinMonitorX_kExtensions_def SpinMonitorX_kHints_def)
        show ?thesis
        proof (cases "v2 = expected")
          case True
          with miss1 show ?thesis
            by (subst SpinMonitorX_UntilEqual_loop.simps)
               (simp add: load_acquire_def Let_def \<open>others w = st # rest\<close> Cons v1_def
                  v2_def w1_def w3_def mm_monitorx_def mm_mwaitx_def SpinMonitorX_kExtensions_def SpinMonitorX_kHints_def emit_def returned_def
                  failed_loads_def first_hit_def)
        next
          case miss2: False
          from "1.IH" [OF la1 refl miss1 la2 refl miss2] miss1 miss2 show ?thesis
            by (subst SpinMonitorX_UntilEqual_loop.simps)
               (simp add: load_acquire_def Let_def \<open>others w = st # rest\<close> Cons v1_def
                  v2_def w1_def w3_def mm_monitorx_def mm_mwaitx_def SpinMonitorX_kExtensions_def SpinMonitorX_kHints_def emit_def returned_def
                  failed_loads_def first_hit_def add.assoc)
        qed
      qed
    qed
  qed
qed

lemma SpinUMonitor_UntilDifferent_loop_char:
  "SpinUMonitor_UntilDifferent_loop prev n w =
     map_option
       (\<lambda>v. (\<lparr>current = v, reps = n + of_nat (length (failed_loads (\<lambda>x. x \<noteq> prev) w) div 2)\<rparr>,
             returned w (armed_rounds (UMonitor) (UMWait 0 (NOT 0)) (failed_loads (\<lambda>x. x \<noteq> prev) w))
               (length (failed_loads (\<lambda>x. x \<noteq> prev) w)) v))
       (first_hit (\<lambda>x. x \<noteq> prev) w)"
proof (induction prev n w rule: SpinUMonitor_UntilDifferent_loop.induct)
  case (1 prev n w)
  show ?case
  proof (cases "others w")
    case Nil
    then show ?thesis
      by (subst SpinUMonitor_UntilDifferent_loop.simps)
         (simp add: load_acquire_Nil failed_loads_def first_hit_def)
  next
    case (Cons st rest)
    define v1 where "v1 = env_step st (watched w)"
    define w1 where "w1 = emit (Load v1) (w\<lparr>watched := v1, others := rest\<rparr>)"
    have la1: "load_acquire w = Some (v1, w1)"
      by (simp add: load_acquire_def Cons v1_def w1_def Let_def)
    show ?thesis
    proof (cases "v1 \<noteq> prev")
      case True
      then show ?thesis
        by (subst SpinUMonitor_UntilDifferent_loop.simps)
           (simp add: load_acquire_def Let_def Cons v1_def emit_def returned_def
              failed_loads_def first_hit_def)
    next
      case miss1: False
      show ?thesis
      proof (cases rest)
        case Nil
        have "load_acquire (umonitor w1) = None"
          by (rule load_acquire_Nil) (simp add: umonitor_def umwait_def SpinUMonitor_kControl_def SpinUMonitor_kDeadline_def w1_def Nil)
        with miss1 show ?thesis
          by (subst SpinUMonitor_UntilDifferent_loop.simps)
             (simp add: load_acquire_def Let_def \<open>others w = st # rest\<close> Nil v1_def
                w1_def umonitor_def umwait_def SpinUMonitor_kControl_def SpinUMonitor_kDeadline_def emit_def failed_loads_def first_hit_def)
      next
        case (Cons st2 rest2)
        define v2 where "v2 = env_step st2 v1"
        define w3 where
          "w3 = emit (Load v2) ((umonitor w1)\<lparr>watched := v2, others := rest2\<rparr>)"
        have la2: "load_acquire (umonitor w1) = Some (v2, w3)"
          by (simp add: load_acquire_def Cons v2_def w1_def w3_def Let_def umonitor_def umwait_def SpinUMonitor_kControl_def SpinUMonitor_kDeadline_def)
        show ?thesis
        proof (cases "v2 \<noteq> prev")
          case True
          with miss1 show ?thesis
            by (subst SpinUMonitor_UntilDifferent_loop.simps)
               (simp add: load_acquire_def Let_def \<open>others w = st # rest\<close> Cons v1_def
                  v2_def w1_def w3_def umonitor_def umwait_def SpinUMonitor_kControl_def SpinUMonitor_kDeadline_def emit_def returned_def
                  failed_loads_def first_hit_def)
        next
          case miss2: False
          from "1.IH" [OF la1 refl miss1 la2 refl miss2] miss1 miss2 show ?thesis
            by (subst SpinUMonitor_UntilDifferent_loop.simps)
               (simp add: load_acquire_def Let_def \<open>others w = st # rest\<close> Cons v1_def
                  v2_def w1_def w3_def umonitor_def umwait_def SpinUMonitor_kControl_def SpinUMonitor_kDeadline_def emit_def returned_def
                  failed_loads_def first_hit_def add.assoc)
        qed
      qed
    qed
  qed
qed

lemma SpinUMonitor_UntilEqual_loop_char:
  "SpinUMonitor_UntilEqual_loop expected n w =
     map_option
       (\<lambda>v. (n + of_nat (length (failed_loads (\<lambda>x. x = expected) w) div 2),
             returned w (armed_rounds (UMonitor) (UMWait 0 (NOT 0)) (failed_loads (\<lambda>x. x = expected) w))
               (length (failed_loads (\<lambda>x. x = expected) w)) v))
       (first_hit (\<lambda>x. x = expected) w)"
proof (induction expected n w rule: SpinUMonitor_UntilEqual_loop.induct)
  case (1 expected n w)
  show ?case
  proof (cases "others w")
    case Nil
    then show ?thesis
      by (subst SpinUMonitor_UntilEqual_loop.simps)
         (simp add: load_acquire_Nil failed_loads_def first_hit_def)
  next
    case (Cons st rest)
    define v1 where "v1 = env_step st (watched w)"
    define w1 where "w1 = emit (Load v1) (w\<lparr>watched := v1, others := rest\<rparr>)"
    have la1: "load_acquire w = Some (v1, w1)"
      by (simp add: load_acquire_def Cons v1_def w1_def Let_def)
    show ?thesis
    proof (cases "v1 = expected")
      case True
      then show ?thesis
        by (subst SpinUMonitor_UntilEqual_loop.simps)
           (simp add: load_acquire_def Let_def Cons v1_def emit_def returned_def
              failed_loads_def first_hit_def)
    next
      case miss1: False
      show ?thesis
      proof (cases rest)
        case Nil
        have "load_acquire (umonitor w1) = None"
          by (rule load_acquire_Nil) (simp add: umonitor_def umwait_def SpinUMonitor_kControl_def SpinUMonitor_kDeadline_def w1_def Nil)
        with miss1 show ?thesis
          by (subst SpinUMonitor_UntilEqual_loop.simps)
             (simp add: load_acquire_def Let_def \<open>others w = st # rest\<close> Nil v1_def
                w1_def umonitor_def umwait_def SpinUMonitor_kControl_def SpinUMonitor_kDeadline_def emit_def failed_loads_def first_hit_def)
      next
        case (Cons st2 rest2)
        define v2 where "v2 = env_step st2 v1"
        define w3 where
          "w3 = emit (Load v2) ((umonitor w1)\<lparr>watched := v2, others := rest2\<rparr>)"
        have la2: "load_acquire (umonitor w1) = Some (v2, w3)"
          by (simp add: load_acquire_def Cons v2_def w1_def w3_def Let_def umonitor_def umwait_def SpinUMonitor_kControl_def SpinUMonitor_kDeadline_def)
        show ?thesis
        proof (cases "v2 = expected")
          case True
          with miss1 show ?thesis
            by (subst SpinUMonitor_UntilEqual_loop.simps)
               (simp add: load_acquire_def Let_def \<open>others w = st # rest\<close> Cons v1_def
                  v2_def w1_def w3_def umonitor_def umwait_def SpinUMonitor_kControl_def SpinUMonitor_kDeadline_def emit_def returned_def
                  failed_loads_def first_hit_def)
        next
          case miss2: False
          from "1.IH" [OF la1 refl miss1 la2 refl miss2] miss1 miss2 show ?thesis
            by (subst SpinUMonitor_UntilEqual_loop.simps)
               (simp add: load_acquire_def Let_def \<open>others w = st # rest\<close> Cons v1_def
                  v2_def w1_def w3_def umonitor_def umwait_def SpinUMonitor_kControl_def SpinUMonitor_kDeadline_def emit_def returned_def
                  failed_loads_def first_hit_def add.assoc)
        qed
      qed
    qed
  qed
qed


section \<open>The two waits of a strategy instance\<close>

lemma UntilDifferent_char:
  "UntilDifferent s prev w =
     map_option
       (\<lambda>v. (\<lparr>current = v,
                reps = of_nat (rounds_done s (length (failed_loads (\<lambda>x. x \<noteq> prev) w)))\<rparr>,
             returned w (rounds_events s (failed_loads (\<lambda>x. x \<noteq> prev) w))
               (length (failed_loads (\<lambda>x. x \<noteq> prev) w)) v))
       (first_hit (\<lambda>x. x \<noteq> prev) w)"
  by (cases s)
     (simp_all add: SpinPause_UntilDifferent_def SpinMonitorX_UntilDifferent_def
        SpinUMonitor_UntilDifferent_def SpinPause_UntilDifferent_loop_char
        SpinMonitorX_UntilDifferent_loop_char SpinUMonitor_UntilDifferent_loop_char)

lemma UntilEqual_char:
  "UntilEqual s expected w =
     map_option
       (\<lambda>v. (of_nat (rounds_done s (length (failed_loads (\<lambda>x. x = expected) w))),
             returned w (rounds_events s (failed_loads (\<lambda>x. x = expected) w))
               (length (failed_loads (\<lambda>x. x = expected) w)) v))
       (first_hit (\<lambda>x. x = expected) w)"
  by (cases s)
     (simp_all add: SpinPause_UntilEqual_def SpinMonitorX_UntilEqual_def
        SpinUMonitor_UntilEqual_def SpinPause_UntilEqual_loop_char
        SpinMonitorX_UntilEqual_loop_char SpinUMonitor_UntilEqual_loop_char)

lemma first_hit_SomeD:
  "first_hit c w = Some v \<Longrightarrow> c v \<and> v \<in> set (observed (watched w) (others w))"
  by (auto simp: first_hit_def find_Some_iff)

lemma length_observed [simp]: "length (observed m sl) = length sl"
  by (induction sl arbitrary: m) simp_all

lemma observed_nth:
  "i < length sl \<Longrightarrow> observed m sl ! i = fold env_step (take (Suc i) sl) m"
proof (induction sl arbitrary: m i)
  case Nil
  then show ?case by simp
next
  case (Cons st sl)
  then show ?case by (cases i) simp_all
qed

lemma find_at_takeWhile:
  "find c xs = Some v \<Longrightarrow>
     length (takeWhile (\<lambda>x. \<not> c x) xs) < length xs \<and> xs ! length (takeWhile (\<lambda>x. \<not> c x) xs) = v"
  by (induction xs) (auto split: if_splits)

lemma first_hit_position:
  assumes "first_hit c w = Some v"
  shows "length (failed_loads c w) < length (others w)"
    and "v = fold env_step (take (Suc (length (failed_loads c w))) (others w)) (watched w)"
proof -
  from assms have f: "find c (observed (watched w) (others w)) = Some v"
    by (simp add: first_hit_def)
  from find_at_takeWhile [OF f] have lt: "length (failed_loads c w) < length (others w)"
    and at: "observed (watched w) (others w) ! length (failed_loads c w) = v"
    by (simp_all add: failed_loads_def)
  show "length (failed_loads c w) < length (others w)"
    by (rule lt)
  from at observed_nth [OF lt, of "watched w"]
  show "v = fold env_step (take (Suc (length (failed_loads c w))) (others w)) (watched w)"
    by simp
qed

lemmas wait_eval =
  SpinPause_UntilDifferent_def SpinMonitorX_UntilDifferent_def SpinUMonitor_UntilDifferent_def
  SpinPause_UntilEqual_def SpinMonitorX_UntilEqual_def SpinUMonitor_UntilEqual_def
  SpinPause_UntilDifferent_loop.simps SpinMonitorX_UntilDifferent_loop.simps
  SpinUMonitor_UntilDifferent_loop.simps SpinPause_UntilEqual_loop.simps
  SpinMonitorX_UntilEqual_loop.simps SpinUMonitor_UntilEqual_loop.simps
  load_acquire_def env_step_def emit_def Pause_def mm_monitorx_def mm_mwaitx_def
  umonitor_def umwait_def SpinMonitorX_kHints_def SpinMonitorX_kExtensions_def
  SpinUMonitor_kControl_def SpinUMonitor_kDeadline_def Let_def

section \<open>\<open>UntilDifferent\<close>\<close>

text \<open>
  C1. For each of the three strategies and every previous value \<open>prev\<close>: when
  \<open>UntilDifferent\<close> returns a \<open>SpinResult\<close>, its \<open>current\<close> differs from \<open>prev\<close>, is one
  of the values the loads of the location gave, and the load that gave it is the last
  thing the call did. No call returns with \<open>current\<close> equal to \<open>prev\<close>.
\<close>

theorem UntilDifferent_current_differs:
  assumes "UntilDifferent s prev w = Some (r, w')"
  shows "current r \<noteq> prev \<and> current r \<in> set (observed (watched w) (others w)) \<and>
         (\<exists>evs. trace w' = trace w @ evs @ [Load (current r)])"
proof -
  from assms obtain v where hit: "first_hit (\<lambda>x. x \<noteq> prev) w = Some v"
    and r: "current r = v"
    and w': "w' = returned w (rounds_events s (failed_loads (\<lambda>x. x \<noteq> prev) w))
                    (length (failed_loads (\<lambda>x. x \<noteq> prev) w)) v"
    by (auto simp: UntilDifferent_char)
  from first_hit_SomeD [OF hit] r w' show ?thesis
    by (auto simp: returned_def)
qed

theorem UntilDifferent_current_differs_witness:
  "UntilDifferent SpinMonitorX 0 \<lparr>watched = 0, others = [None, None, Some 7], trace = []\<rparr>
     = Some (\<lparr>current = 7, reps = 1\<rparr>,
             \<lparr>watched = 7, others = [],
              trace = [Load 0, MonitorX 0 0, Load 0, MWaitX 0 0 0, Load 7]\<rparr>) \<and>
   current \<lparr>current = 7, reps = 1\<rparr> \<noteq> (0 :: u32) \<and>
   current \<lparr>current = 7, reps = 1\<rparr>
     \<in> set (observed (0 :: u32) [None, None, Some 7]) \<and>
   (\<exists>evs. [Load 0, MonitorX 0 0, Load 0, MWaitX 0 0 0, Load 7]
      = [] @ evs @ [Load (current \<lparr>current = 7, reps = 1 :: u32\<rparr>)])"
  using UntilDifferent_current_differs
    [of SpinMonitorX 0 "\<lparr>watched = 0, others = [None, None, Some 7], trace = []\<rparr>"
       "\<lparr>current = 7, reps = 1\<rparr>"
       "\<lparr>watched = 7, others = [],
         trace = [Load 0, MonitorX 0 0, Load 0, MWaitX 0 0 0, Load 7]\<rparr>"]
  by (simp add: wait_eval)

text \<open>
  C7. For each of the three strategies: when the first acquire-load of the location
  already gives a value \<open>v\<close> that differs from \<open>prev\<close>, \<open>UntilDifferent\<close> returns on that
  check, with \<open>reps\<close> equal to 0 and \<open>current\<close> equal to \<open>v\<close>, having done that one load and
  nothing else.
\<close>

theorem UntilDifferent_first_check:
  assumes "load_acquire w = Some (v, w1)" and "v \<noteq> prev"
  shows "UntilDifferent s prev w = Some (\<lparr>current = v, reps = 0\<rparr>, w1) \<and>
         trace w1 = trace w @ [Load v]"
proof
  from assms show "UntilDifferent s prev w = Some (\<lparr>current = v, reps = 0\<rparr>, w1)"
    by (cases s)
       (simp_all add: SpinPause_UntilDifferent_def SpinMonitorX_UntilDifferent_def
          SpinUMonitor_UntilDifferent_def SpinPause_UntilDifferent_loop.simps
          SpinMonitorX_UntilDifferent_loop.simps SpinUMonitor_UntilDifferent_loop.simps)
  from assms(1) show "trace w1 = trace w @ [Load v]"
    by (auto simp: load_acquire_Some)
qed

theorem UntilDifferent_first_check_witness:
  "load_acquire \<lparr>watched = 7, others = [None], trace = []\<rparr>
     = Some (7, \<lparr>watched = 7, others = [], trace = [Load 7]\<rparr>) \<and> (7 :: u32) \<noteq> 0 \<and>
   UntilDifferent SpinUMonitor 0 \<lparr>watched = 7, others = [None], trace = []\<rparr>
     = Some (\<lparr>current = 7, reps = 0\<rparr>, \<lparr>watched = 7, others = [], trace = [Load 7]\<rparr>)"
  using UntilDifferent_first_check
    [of "\<lparr>watched = 7, others = [None], trace = []\<rparr>" 7
       "\<lparr>watched = 7, others = [], trace = [Load 7]\<rparr>" 0 SpinUMonitor]
  by (simp add: load_acquire_def env_step_def emit_def)

section \<open>The double check of the monitor classes\<close>

lemma load_acquire_trace:
  "load_acquire w = Some (v, w1) \<Longrightarrow> trace w1 = trace w @ [Load v]"
  by (auto simp: load_acquire_Some)

lemma SpinMonitorX_UntilDifferent_run:
  assumes "SpinMonitorX_UntilDifferent prev w = Some (r, w')"
  shows "trace w' = trace w
           @ armed_rounds (MonitorX 0 0) (MWaitX 0 0 0) (failed_loads (\<lambda>x. x \<noteq> prev) w)
           @ [Load (current r)] \<and>
         current r \<noteq> prev \<and>
         reps r = of_nat (length (failed_loads (\<lambda>x. x \<noteq> prev) w) div 2)"
  using assms
  by (auto simp: SpinMonitorX_UntilDifferent_def SpinMonitorX_UntilDifferent_loop_char
      returned_def dest: first_hit_SomeD)

lemma SpinUMonitor_UntilDifferent_run:
  assumes "SpinUMonitor_UntilDifferent prev w = Some (r, w')"
  shows "trace w' = trace w
           @ armed_rounds UMonitor (UMWait 0 (NOT 0)) (failed_loads (\<lambda>x. x \<noteq> prev) w)
           @ [Load (current r)] \<and>
         current r \<noteq> prev \<and>
         reps r = of_nat (length (failed_loads (\<lambda>x. x \<noteq> prev) w) div 2)"
  using assms
  by (auto simp: SpinUMonitor_UntilDifferent_def SpinUMonitor_UntilDifferent_loop_char
      returned_def dest: first_hit_SomeD)

lemma SpinMonitorX_UntilEqual_run:
  assumes "SpinMonitorX_UntilEqual expected w = Some (k, w')"
  shows "trace w' = trace w
           @ armed_rounds (MonitorX 0 0) (MWaitX 0 0 0) (failed_loads (\<lambda>x. x = expected) w)
           @ [Load expected] \<and>
         k = of_nat (length (failed_loads (\<lambda>x. x = expected) w) div 2)"
  using assms
  by (auto simp: SpinMonitorX_UntilEqual_def SpinMonitorX_UntilEqual_loop_char
      returned_def dest: first_hit_SomeD)

lemma SpinUMonitor_UntilEqual_run:
  assumes "SpinUMonitor_UntilEqual expected w = Some (k, w')"
  shows "trace w' = trace w
           @ armed_rounds UMonitor (UMWait 0 (NOT 0)) (failed_loads (\<lambda>x. x = expected) w)
           @ [Load expected] \<and>
         k = of_nat (length (failed_loads (\<lambda>x. x = expected) w) div 2)"
  using assms
  by (auto simp: SpinUMonitor_UntilEqual_def SpinUMonitor_UntilEqual_loop_char
      returned_def dest: first_hit_SomeD)

lemma SpinMonitorX_UntilDifferent_second_check:
  assumes "load_acquire w = Some (a, w1)" and "load_acquire (mm_monitorx 0 0 w1) = Some (b, w3)"
    and "a = prev" and "b \<noteq> prev"
  shows "SpinMonitorX_UntilDifferent_loop prev n w = Some (\<lparr>current = b, reps = n\<rparr>, w3) \<and>
         trace w3 = trace w @ [Load a, MonitorX 0 0, Load b]"
  using assms load_acquire_trace [OF assms(1)] load_acquire_trace [OF assms(2)]
  by (subst SpinMonitorX_UntilDifferent_loop.simps) (simp add: mm_monitorx_def)

lemma SpinMonitorX_UntilEqual_second_check:
  assumes "load_acquire w = Some (a, w1)" and "load_acquire (mm_monitorx 0 0 w1) = Some (b, w3)"
    and "a \<noteq> expected" and "b = expected"
  shows "SpinMonitorX_UntilEqual_loop expected n w = Some (n, w3) \<and>
         trace w3 = trace w @ [Load a, MonitorX 0 0, Load b]"
  using assms load_acquire_trace [OF assms(1)] load_acquire_trace [OF assms(2)]
  by (subst SpinMonitorX_UntilEqual_loop.simps) (simp add: mm_monitorx_def)

lemma SpinUMonitor_UntilDifferent_second_check:
  assumes "load_acquire w = Some (a, w1)" and "load_acquire (umonitor w1) = Some (b, w3)"
    and "a = prev" and "b \<noteq> prev"
  shows "SpinUMonitor_UntilDifferent_loop prev n w = Some (\<lparr>current = b, reps = n\<rparr>, w3) \<and>
         trace w3 = trace w @ [Load a, UMonitor, Load b]"
  using assms load_acquire_trace [OF assms(1)] load_acquire_trace [OF assms(2)]
  by (subst SpinUMonitor_UntilDifferent_loop.simps) (simp add: umonitor_def)

lemma SpinUMonitor_UntilEqual_second_check:
  assumes "load_acquire w = Some (a, w1)" and "load_acquire (umonitor w1) = Some (b, w3)"
    and "a \<noteq> expected" and "b = expected"
  shows "SpinUMonitor_UntilEqual_loop expected n w = Some (n, w3) \<and>
         trace w3 = trace w @ [Load a, UMonitor, Load b]"
  using assms load_acquire_trace [OF assms(1)] load_acquire_trace [OF assms(2)]
  by (subst SpinUMonitor_UntilEqual_loop.simps) (simp add: umonitor_def)

lemma SpinMonitorX_UntilDifferent_loop_full_round:
  assumes "load_acquire w = Some (a, w1)" and "load_acquire (mm_monitorx 0 0 w1) = Some (b, w3)"
    and "a = prev" and "b = prev"
  shows "SpinMonitorX_UntilDifferent_loop prev n w = SpinMonitorX_UntilDifferent_loop prev (n + 1) (mm_mwaitx 0 0 0 w3) \<and>
         trace (mm_mwaitx 0 0 0 w3) = trace w @ [Load a, MonitorX 0 0, Load b, MWaitX 0 0 0]"
  using assms load_acquire_trace [OF assms(1)] load_acquire_trace [OF assms(2)]
  by (subst SpinMonitorX_UntilDifferent_loop.simps) (simp add: mm_monitorx_def mm_mwaitx_def SpinMonitorX_kExtensions_def SpinMonitorX_kHints_def)

lemma SpinMonitorX_UntilEqual_loop_full_round:
  assumes "load_acquire w = Some (a, w1)" and "load_acquire (mm_monitorx 0 0 w1) = Some (b, w3)"
    and "a \<noteq> expected" and "b \<noteq> expected"
  shows "SpinMonitorX_UntilEqual_loop expected n w = SpinMonitorX_UntilEqual_loop expected (n + 1) (mm_mwaitx 0 0 0 w3) \<and>
         trace (mm_mwaitx 0 0 0 w3) = trace w @ [Load a, MonitorX 0 0, Load b, MWaitX 0 0 0]"
  using assms load_acquire_trace [OF assms(1)] load_acquire_trace [OF assms(2)]
  by (subst SpinMonitorX_UntilEqual_loop.simps) (simp add: mm_monitorx_def mm_mwaitx_def SpinMonitorX_kExtensions_def SpinMonitorX_kHints_def)

lemma SpinUMonitor_UntilDifferent_loop_full_round:
  assumes "load_acquire w = Some (a, w1)" and "load_acquire (umonitor w1) = Some (b, w3)"
    and "a = prev" and "b = prev"
  shows "SpinUMonitor_UntilDifferent_loop prev n w = SpinUMonitor_UntilDifferent_loop prev (n + 1) (umwait 0 (NOT 0) w3) \<and>
         trace (umwait 0 (NOT 0) w3) = trace w @ [Load a, UMonitor, Load b, UMWait 0 (NOT 0)]"
  using assms load_acquire_trace [OF assms(1)] load_acquire_trace [OF assms(2)]
  by (subst SpinUMonitor_UntilDifferent_loop.simps) (simp add: umonitor_def umwait_def SpinUMonitor_kControl_def SpinUMonitor_kDeadline_def)

lemma SpinUMonitor_UntilEqual_loop_full_round:
  assumes "load_acquire w = Some (a, w1)" and "load_acquire (umonitor w1) = Some (b, w3)"
    and "a \<noteq> expected" and "b \<noteq> expected"
  shows "SpinUMonitor_UntilEqual_loop expected n w = SpinUMonitor_UntilEqual_loop expected (n + 1) (umwait 0 (NOT 0) w3) \<and>
         trace (umwait 0 (NOT 0) w3) = trace w @ [Load a, UMonitor, Load b, UMWait 0 (NOT 0)]"
  using assms load_acquire_trace [OF assms(1)] load_acquire_trace [OF assms(2)]
  by (subst SpinUMonitor_UntilEqual_loop.simps) (simp add: umonitor_def umwait_def SpinUMonitor_kControl_def SpinUMonitor_kDeadline_def)

text \<open>
  C2. In \<open>SpinMonitorX\<close> and \<open>SpinUMonitor\<close>, for \<open>UntilDifferent\<close> and for \<open>UntilEqual\<close>: the
  events of a call that returns are rounds of acquire-load, arm, acquire-load, wait, in
  that order, over the values that failed the test, and then the load whose value passed
  it; the counter returned has counted the whole rounds. In one iteration of each loop:
  when the first load fails the test and the load after the arm passes it, the loop
  returns there with the counter as it stands, and the wait instruction is not among the
  events; when both loads fail the test, the iteration is load, arm, load, wait, and the
  loop goes on with the counter incremented.
\<close>

theorem monitor_double_checked:
  fixes kx ku m :: "'s::len word"
  shows
  "(SpinMonitorX_UntilDifferent prev w = Some (rx, wx) \<longrightarrow>
      trace wx = trace w
        @ armed_rounds (MonitorX 0 0) (MWaitX 0 0 0) (failed_loads (\<lambda>x. x \<noteq> prev) w)
        @ [Load (current rx)] \<and>
      current rx \<noteq> prev \<and>
      reps rx = of_nat (length (failed_loads (\<lambda>x. x \<noteq> prev) w) div 2)) \<and>
   (SpinMonitorX_UntilEqual expected w = Some (kx, wx') \<longrightarrow>
      trace wx' = trace w
        @ armed_rounds (MonitorX 0 0) (MWaitX 0 0 0) (failed_loads (\<lambda>x. x = expected) w)
        @ [Load expected] \<and>
      kx = of_nat (length (failed_loads (\<lambda>x. x = expected) w) div 2)) \<and>
   (SpinUMonitor_UntilDifferent prev w = Some (ru, wu) \<longrightarrow>
      trace wu = trace w
        @ armed_rounds UMonitor (UMWait 0 (NOT 0)) (failed_loads (\<lambda>x. x \<noteq> prev) w)
        @ [Load (current ru)] \<and>
      current ru \<noteq> prev \<and>
      reps ru = of_nat (length (failed_loads (\<lambda>x. x \<noteq> prev) w) div 2)) \<and>
   (SpinUMonitor_UntilEqual expected w = Some (ku, wu') \<longrightarrow>
      trace wu' = trace w
        @ armed_rounds UMonitor (UMWait 0 (NOT 0)) (failed_loads (\<lambda>x. x = expected) w)
        @ [Load expected] \<and>
      ku = of_nat (length (failed_loads (\<lambda>x. x = expected) w) div 2)) \<and>
   (load_acquire w = Some (a, w1) \<and> load_acquire (mm_monitorx 0 0 w1) = Some (b, w3) \<and>
    a = prev \<and> b \<noteq> prev \<longrightarrow>
      SpinMonitorX_UntilDifferent_loop prev n w = Some (\<lparr>current = b, reps = n\<rparr>, w3) \<and>
      trace w3 = trace w @ [Load a, MonitorX 0 0, Load b]) \<and>
   (load_acquire w = Some (a, w1) \<and> load_acquire (mm_monitorx 0 0 w1) = Some (b, w3) \<and>
    a \<noteq> expected \<and> b = expected \<longrightarrow>
      SpinMonitorX_UntilEqual_loop expected m w = Some (m, w3) \<and>
      trace w3 = trace w @ [Load a, MonitorX 0 0, Load b]) \<and>
   (load_acquire w = Some (a, w1) \<and> load_acquire (umonitor w1) = Some (b, u3) \<and>
    a = prev \<and> b \<noteq> prev \<longrightarrow>
      SpinUMonitor_UntilDifferent_loop prev n w = Some (\<lparr>current = b, reps = n\<rparr>, u3) \<and>
      trace u3 = trace w @ [Load a, UMonitor, Load b]) \<and>
   (load_acquire w = Some (a, w1) \<and> load_acquire (umonitor w1) = Some (b, u3) \<and>
    a \<noteq> expected \<and> b = expected \<longrightarrow>
      SpinUMonitor_UntilEqual_loop expected m w = Some (m, u3) \<and>
      trace u3 = trace w @ [Load a, UMonitor, Load b]) \<and>
   (load_acquire w = Some (a, w1) \<and> load_acquire (mm_monitorx 0 0 w1) = Some (b, w3) \<and>
    a = prev \<and> b = prev \<longrightarrow>
      SpinMonitorX_UntilDifferent_loop prev n w
        = SpinMonitorX_UntilDifferent_loop prev (n + 1) (mm_mwaitx 0 0 0 w3) \<and>
      trace (mm_mwaitx 0 0 0 w3) = trace w @ [Load a, MonitorX 0 0, Load b, MWaitX 0 0 0]) \<and>
   (load_acquire w = Some (a, w1) \<and> load_acquire (mm_monitorx 0 0 w1) = Some (b, w3) \<and>
    a \<noteq> expected \<and> b \<noteq> expected \<longrightarrow>
      SpinMonitorX_UntilEqual_loop expected m w
        = SpinMonitorX_UntilEqual_loop expected (m + 1) (mm_mwaitx 0 0 0 w3) \<and>
      trace (mm_mwaitx 0 0 0 w3) = trace w @ [Load a, MonitorX 0 0, Load b, MWaitX 0 0 0]) \<and>
   (load_acquire w = Some (a, w1) \<and> load_acquire (umonitor w1) = Some (b, u3) \<and>
    a = prev \<and> b = prev \<longrightarrow>
      SpinUMonitor_UntilDifferent_loop prev n w
        = SpinUMonitor_UntilDifferent_loop prev (n + 1) (umwait 0 (NOT 0) u3) \<and>
      trace (umwait 0 (NOT 0) u3) = trace w @ [Load a, UMonitor, Load b, UMWait 0 (NOT 0)]) \<and>
   (load_acquire w = Some (a, w1) \<and> load_acquire (umonitor w1) = Some (b, u3) \<and>
    a \<noteq> expected \<and> b \<noteq> expected \<longrightarrow>
      SpinUMonitor_UntilEqual_loop expected m w
        = SpinUMonitor_UntilEqual_loop expected (m + 1) (umwait 0 (NOT 0) u3) \<and>
      trace (umwait 0 (NOT 0) u3) = trace w @ [Load a, UMonitor, Load b, UMWait 0 (NOT 0)])"
  by (intro conjI; rule impI; (elim conjE)?;
      rule SpinMonitorX_UntilDifferent_run SpinMonitorX_UntilEqual_run
        SpinUMonitor_UntilDifferent_run SpinUMonitor_UntilEqual_run
        SpinMonitorX_UntilDifferent_second_check SpinMonitorX_UntilEqual_second_check
        SpinUMonitor_UntilDifferent_second_check SpinUMonitor_UntilEqual_second_check
        SpinMonitorX_UntilDifferent_loop_full_round SpinMonitorX_UntilEqual_loop_full_round
        SpinUMonitor_UntilDifferent_loop_full_round SpinUMonitor_UntilEqual_loop_full_round;
      assumption)

theorem monitor_double_checked_witness:
  "SpinMonitorX_UntilDifferent 0 late_store
     = Some (\<lparr>current = 7, reps = 0\<rparr>,
             \<lparr>watched = 7, others = [], trace = [Load 0, MonitorX 0 0, Load 7]\<rparr>) \<and>
   SpinMonitorX_UntilEqual 7 late_store
     = Some (0 :: 64 word,
             \<lparr>watched = 7, others = [], trace = [Load 0, MonitorX 0 0, Load 7]\<rparr>) \<and>
   SpinUMonitor_UntilDifferent 0 late_store
     = Some (\<lparr>current = 7, reps = 0\<rparr>,
             \<lparr>watched = 7, others = [], trace = [Load 0, UMonitor, Load 7]\<rparr>) \<and>
   SpinUMonitor_UntilEqual 7 late_store
     = Some (0 :: 64 word,
             \<lparr>watched = 7, others = [], trace = [Load 0, UMonitor, Load 7]\<rparr>) \<and>
   load_acquire late_store
     = Some (0, \<lparr>watched = 0, others = [Some 7], trace = [Load 0]\<rparr>) \<and>
   load_acquire (mm_monitorx 0 0 \<lparr>watched = 0, others = [Some 7], trace = [Load 0]\<rparr>)
     = Some (7, \<lparr>watched = 7, others = [], trace = [Load 0, MonitorX 0 0, Load 7]\<rparr>) \<and>
   load_acquire (umonitor \<lparr>watched = 0, others = [Some 7], trace = [Load 0]\<rparr>)
     = Some (7, \<lparr>watched = 7, others = [], trace = [Load 0, UMonitor, Load 7]\<rparr>) \<and>
   armed_rounds (MonitorX 0 0) (MWaitX 0 0 0) (failed_loads (\<lambda>x. x \<noteq> 0) late_store)
     = [Load 0, MonitorX 0 0] \<and>
   SpinMonitorX_UntilDifferent_loop 0 5 late_store
     = Some (\<lparr>current = 7, reps = 5\<rparr>,
             \<lparr>watched = 7, others = [], trace = [Load 0, MonitorX 0 0, Load 7]\<rparr>) \<and>
   SpinUMonitor_UntilEqual_loop 7 (5 :: 64 word) late_store
     = Some (5, \<lparr>watched = 7, others = [], trace = [Load 0, UMonitor, Load 7]\<rparr>) \<and>
   load_acquire later_store
     = Some (0, \<lparr>watched = 0, others = [None, Some 7], trace = [Load 0]\<rparr>) \<and>
   load_acquire (mm_monitorx 0 0 \<lparr>watched = 0, others = [None, Some 7], trace = [Load 0]\<rparr>)
     = Some (0, \<lparr>watched = 0, others = [Some 7], trace = [Load 0, MonitorX 0 0, Load 0]\<rparr>) \<and>
   load_acquire (umonitor \<lparr>watched = 0, others = [None, Some 7], trace = [Load 0]\<rparr>)
     = Some (0, \<lparr>watched = 0, others = [Some 7], trace = [Load 0, UMonitor, Load 0]\<rparr>) \<and>
   SpinMonitorX_UntilDifferent_loop 0 5 later_store
     = Some (\<lparr>current = 7, reps = 6\<rparr>,
             \<lparr>watched = 7, others = [],
              trace = [Load 0, MonitorX 0 0, Load 0, MWaitX 0 0 0, Load 7]\<rparr>) \<and>
   SpinUMonitor_UntilEqual_loop 7 (5 :: 64 word) later_store
     = Some (6, \<lparr>watched = 7, others = [],
                 trace = [Load 0, UMonitor, Load 0, UMWait 0 (NOT 0), Load 7]\<rparr>)"
  using monitor_double_checked
    [where prev = 0 and expected = 7 and w = later_store
       and rx = "\<lparr>current = 7, reps = 1\<rparr>"
       and wx = "\<lparr>watched = 7, others = [],
                  trace = [Load 0, MonitorX 0 0, Load 0, MWaitX 0 0 0, Load 7]\<rparr>"
       and kx = "1 :: 64 word"
       and wx' = "\<lparr>watched = 7, others = [],
                   trace = [Load 0, MonitorX 0 0, Load 0, MWaitX 0 0 0, Load 7]\<rparr>"
       and ru = "\<lparr>current = 7, reps = 1\<rparr>"
       and wu = "\<lparr>watched = 7, others = [],
                  trace = [Load 0, UMonitor, Load 0, UMWait 0 (NOT 0), Load 7]\<rparr>"
       and ku = "1 :: 64 word"
       and wu' = "\<lparr>watched = 7, others = [],
                   trace = [Load 0, UMonitor, Load 0, UMWait 0 (NOT 0), Load 7]\<rparr>"
       and a = 0 and b = 0
       and ?w1.0 = "\<lparr>watched = 0, others = [None, Some 7], trace = [Load 0]\<rparr>"
       and ?w3.0 = "\<lparr>watched = 0, others = [Some 7], trace = [Load 0, MonitorX 0 0, Load 0]\<rparr>"
       and ?u3.0 = "\<lparr>watched = 0, others = [Some 7], trace = [Load 0, UMonitor, Load 0]\<rparr>"
       and n = 5 and m = "5 :: 64 word"]
    monitor_double_checked
    [where prev = 0 and expected = 7 and w = late_store
       and rx = "\<lparr>current = 7, reps = 0\<rparr>"
       and wx = "\<lparr>watched = 7, others = [], trace = [Load 0, MonitorX 0 0, Load 7]\<rparr>"
       and kx = "0 :: 64 word"
       and wx' = "\<lparr>watched = 7, others = [], trace = [Load 0, MonitorX 0 0, Load 7]\<rparr>"
       and ru = "\<lparr>current = 7, reps = 0\<rparr>"
       and wu = "\<lparr>watched = 7, others = [], trace = [Load 0, UMonitor, Load 7]\<rparr>"
       and ku = "0 :: 64 word"
       and wu' = "\<lparr>watched = 7, others = [], trace = [Load 0, UMonitor, Load 7]\<rparr>"
       and a = 0 and b = 7
       and ?w1.0 = "\<lparr>watched = 0, others = [Some 7], trace = [Load 0]\<rparr>"
       and ?w3.0 = "\<lparr>watched = 7, others = [], trace = [Load 0, MonitorX 0 0, Load 7]\<rparr>"
       and ?u3.0 = "\<lparr>watched = 7, others = [], trace = [Load 0, UMonitor, Load 7]\<rparr>"
       and n = 5 and m = "5 :: 64 word"]
  by (simp add: wait_eval late_store_def later_store_def failed_loads_def)

section \<open>The monitor classes against \<open>SpinPause\<close>\<close>

text \<open>
  C6. \<open>SpinMonitorX\<close> and \<open>SpinUMonitor\<close> wait as the reference \<open>SpinPause\<close> does. On the same
  location with the same stores of the other threads, hence the same values seen by the
  loads, \<open>UntilDifferent\<close> of any class returns exactly when \<open>SpinPause\<close>'s does, namely at
  the first value that differs from \<open>prev\<close>, with that value as \<open>current\<close>; and \<open>UntilEqual\<close>
  returns exactly when \<open>SpinPause\<close>'s does, at the first value equal to \<open>expected\<close>. Both
  have then done the same number of loads.
\<close>

theorem monitors_equivalent_to_pause:
  fixes s :: Spin
  shows
  "map_option (\<lambda>(r, w'). (current r, watched w', others w')) (UntilDifferent s prev w)
     = map_option (\<lambda>(r, w'). (current r, watched w', others w')) (UntilDifferent SpinPause prev w) \<and>
   map_option (\<lambda>(r, w'). current r) (UntilDifferent s prev w) = first_hit (\<lambda>x. x \<noteq> prev) w \<and>
   map_option (\<lambda>(k, w'). (watched w', others w'))
       (UntilEqual s expected w :: ('s::len word \<times> world) option)
     = map_option (\<lambda>(k, w'). (watched w', others w'))
         (UntilEqual SpinPause expected w :: ('s word \<times> world) option) \<and>
   map_option (\<lambda>(k, w'). watched w')
       (UntilEqual s expected w :: ('s word \<times> world) option)
     = first_hit (\<lambda>x. x = expected) w"
  by (simp add: UntilDifferent_char UntilEqual_char option.map_comp comp_def returned_def
      option.map_ident)

theorem monitors_equivalent_to_pause_witness:
  "map_option (\<lambda>(r, w'). (current r, watched w', others w'))
     (UntilDifferent SpinMonitorX 0 \<lparr>watched = 0, others = [None, None, Some 7, None], trace = []\<rparr>)
     = Some (7, 7, [None]) \<and>
   map_option (\<lambda>(r, w'). (current r, watched w', others w'))
     (UntilDifferent SpinPause 0 \<lparr>watched = 0, others = [None, None, Some 7, None], trace = []\<rparr>)
     = Some (7, 7, [None]) \<and>
   first_hit (\<lambda>x. x \<noteq> 0) \<lparr>watched = 0, others = [None, None, Some 7, None], trace = []\<rparr>
     = Some 7 \<and>
   (UntilEqual SpinMonitorX 9 \<lparr>watched = 0, others = [None, None, Some 7, None], trace = []\<rparr>
      :: (64 word \<times> world) option) = None \<and>
   (UntilEqual SpinPause 9 \<lparr>watched = 0, others = [None, None, Some 7, None], trace = []\<rparr>
      :: (64 word \<times> world) option) = None"
  using monitors_equivalent_to_pause
    [of SpinMonitorX 0 "\<lparr>watched = 0, others = [None, None, Some 7, None], trace = []\<rparr>" 9,
     where 's = 64]
  by (simp add: wait_eval first_hit_def)

section \<open>\<open>UntilEqual\<close>\<close>














section \<open>The location is not written\<close>

lemma loads_of_append: "loads_of (es @ fs) = loads_of es @ loads_of fs"
  by (induction es rule: loads_of.induct) simp_all

lemma loads_of_pause_rounds: "loads_of (pause_rounds xs) = xs"
  by (induction xs) simp_all

lemma loads_of_armed_rounds:
  "\<forall>a. arm \<noteq> Load a \<Longrightarrow> \<forall>a. wt \<noteq> Load a \<Longrightarrow> loads_of (armed_rounds arm wt xs) = xs"
proof (induction arm wt xs rule: armed_rounds.induct)
  case (1 arm wt)
  then show ?case by simp
next
  case (2 arm wt a)
  then show ?case by (cases arm) simp_all
next
  case (3 arm wt a b xs)
  then show ?case by (cases arm; cases wt) simp_all
qed

lemma loads_of_rounds_events: "loads_of (rounds_events s xs) = xs"
  by (cases s) (simp_all add: loads_of_pause_rounds loads_of_armed_rounds)

lemma misses_then_hit:
  "find c xs = Some v \<Longrightarrow>
     takeWhile (\<lambda>x. \<not> c x) xs @ [v] = take (Suc (length (takeWhile (\<lambda>x. \<not> c x) xs))) xs"
  by (induction xs) (auto split: if_splits)

lemma returned_frame:
  assumes "first_hit c w = Some v"
  shows "others (returned w evs (length (failed_loads c w)) v)
           = drop (Suc (length (failed_loads c w))) (others w) \<and>
         watched (returned w evs (length (failed_loads c w)) v)
           = fold env_step (take (Suc (length (failed_loads c w))) (others w)) (watched w)"
  using first_hit_position(2) [OF assms] by (simp add: returned_def)

lemma returned_loads:
  assumes "first_hit c w = Some v"
  shows "loads_of (drop (length (trace w))
            (trace (returned w (rounds_events s (failed_loads c w)) (length (failed_loads c w)) v)))
         = take (Suc (length (failed_loads c w))) (observed (watched w) (others w))"
proof -
  from assms have f: "find c (observed (watched w) (others w)) = Some v"
    by (simp add: first_hit_def)
  from misses_then_hit [OF f] show ?thesis
    by (simp add: returned_def loads_of_append loads_of_rounds_events failed_loads_def)
qed

lemma returned_not_written:
  assumes hit: "first_hit c w = Some v"
    and u: "u = returned w (rounds_events s (failed_loads c w)) (length (failed_loads c w)) v"
  shows "\<exists>j. 0 < j \<and> j \<le> length (others w) \<and>
           others u = drop j (others w) \<and>
           loads_of (drop (length (trace w)) (trace u))
             = take j (observed (watched w) (others w)) \<and>
           watched u = fold env_step (take j (others w)) (watched w)"
proof -
  let ?j = "Suc (length (failed_loads c w))"
  from first_hit_position(1) [OF hit] have "0 < ?j \<and> ?j \<le> length (others w)"
    by simp
  moreover from returned_frame [OF hit] u
  have "others u = drop ?j (others w) \<and>
      watched u = fold env_step (take ?j (others w)) (watched w)"
    by simp
  moreover from returned_loads [OF hit] u
  have "loads_of (drop (length (trace w)) (trace u))
      = take ?j (observed (watched w) (others w))"
    by simp
  ultimately show ?thesis
    by blast
qed

text \<open>
  C9. No wait of any strategy writes the location. In a call of \<open>UntilDifferent\<close> or
  \<open>UntilEqual\<close> that returns after \<open>j\<close> loads, the values that the loads gave, round after
  round, are the first \<open>j\<close> values that the initial content and the stores of the other
  threads alone determine; and the location holds at the return what those stores left
  there. A wait that stored anything of its own would have loaded it back where the
  other threads store nothing in between.
\<close>

theorem waiting_never_writes:
  fixes k :: "'s::len word"
  shows
  "(UntilDifferent s prev w = Some (r, w') \<longrightarrow>
      (\<exists>j. 0 < j \<and> j \<le> length (others w) \<and>
         others w' = drop j (others w) \<and>
         loads_of (drop (length (trace w)) (trace w'))
           = take j (observed (watched w) (others w)) \<and>
         watched w' = fold env_step (take j (others w)) (watched w))) \<and>
   (UntilEqual s expected w = Some (k, w'') \<longrightarrow>
      (\<exists>j. 0 < j \<and> j \<le> length (others w) \<and>
         others w'' = drop j (others w) \<and>
         loads_of (drop (length (trace w)) (trace w''))
           = take j (observed (watched w) (others w)) \<and>
         watched w'' = fold env_step (take j (others w)) (watched w)))"
proof (intro conjI impI)
  assume "UntilDifferent s prev w = Some (r, w')"
  then obtain v where "first_hit (\<lambda>x. x \<noteq> prev) w = Some v"
    and "w' = returned w (rounds_events s (failed_loads (\<lambda>x. x \<noteq> prev) w))
                (length (failed_loads (\<lambda>x. x \<noteq> prev) w)) v"
    by (auto simp: UntilDifferent_char)
  then show "\<exists>j. 0 < j \<and> j \<le> length (others w) \<and>
         others w' = drop j (others w) \<and>
         loads_of (drop (length (trace w)) (trace w'))
           = take j (observed (watched w) (others w)) \<and>
         watched w' = fold env_step (take j (others w)) (watched w)"
    by (rule returned_not_written)
next
  assume "UntilEqual s expected w = Some (k, w'')"
  then obtain v where "first_hit (\<lambda>x. x = expected) w = Some v"
    and "w'' = returned w (rounds_events s (failed_loads (\<lambda>x. x = expected) w))
                (length (failed_loads (\<lambda>x. x = expected) w)) v"
    by (auto simp: UntilEqual_char)
  then show "\<exists>j. 0 < j \<and> j \<le> length (others w) \<and>
         others w'' = drop j (others w) \<and>
         loads_of (drop (length (trace w)) (trace w''))
           = take j (observed (watched w) (others w)) \<and>
         watched w'' = fold env_step (take j (others w)) (watched w)"
    by (rule returned_not_written)
qed

theorem waiting_never_writes_witness:
  "UntilDifferent SpinPause 0 busy_store
     = Some (\<lparr>current = 3, reps = 1\<rparr>,
             \<lparr>watched = 3, others = [None, Some 7, None],
              trace = [Load 0, PauseHint, Load 3]\<rparr>) \<and>
   loads_of [Load 0, PauseHint, Load 3] = take 2 (observed (watched busy_store) (others busy_store)) \<and>
   (3 :: u32) = fold env_step (take 2 (others busy_store)) (watched busy_store) \<and>
   UntilEqual SpinUMonitor 7 busy_store
     = Some (1 :: 64 word,
             \<lparr>watched = 7, others = [None],
              trace = [Load 0, UMonitor, Load 3, UMWait 0 (NOT 0), Load 3, UMonitor, Load 7]\<rparr>) \<and>
   loads_of [Load 0, UMonitor, Load 3, UMWait 0 (NOT 0), Load 3, UMonitor, Load 7]
     = take 4 (observed (watched busy_store) (others busy_store)) \<and>
   take 4 (observed (watched busy_store) (others busy_store)) = [0, 3, 3, 7] \<and>
   (7 :: u32) = fold env_step (take 4 (others busy_store)) (watched busy_store)"
  using waiting_never_writes
    [of SpinPause 0 busy_store "\<lparr>current = 3, reps = 1\<rparr>"
       "\<lparr>watched = 3, others = [None, Some 7, None], trace = [Load 0, PauseHint, Load 3]\<rparr>"]
    waiting_never_writes
    [where s = SpinUMonitor and expected = 7 and w = busy_store and k = "1 :: 64 word"
       and w'' = "\<lparr>watched = 7, others = [None],
         trace = [Load 0, UMonitor, Load 3, UMWait 0 (NOT 0), Load 3, UMonitor, Load 7]\<rparr>"]
  by (simp add: wait_eval busy_store_def)

section \<open>\<open>DetectSpin\<close>\<close>

lemma enabled_iff_bit: "enabled disabled type \<longleftrightarrow> \<not> bit disabled (nat (SpinType_int type))"
  by (simp add: enabled_def push_bit_of_1 and_exp_eq_0_iff_not_bit)

lemma IsBitSet_iff_bit: "IsBitSet reg index \<longleftrightarrow> bit reg index"
  by (simp add: IsBitSet_def push_bit_of_1 and_exp_eq_0_iff_not_bit)

lemmas DetectSpin_defs = DetectSpin_def DetectSpin_MonitorX_def DetectSpin_UMonitor_def Let_def

lemmas detector_eval = DetectSpin_defs enabled_def IsBitSet_def build_both_def
  build_neither_def monitorx_cpu_def waitpkg_cpu_def plain_cpu_def

text \<open>
  C3. \<open>DetectSpin\<close> goes by strict priority. It returns \<open>kMonitorX\<close> exactly when that
  support is compiled in, bit 0 of \<open>disabled\<close> is clear, the processor is AMD and ECX bit 29
  of leaf \<open>0x80000001\<close> is set; failing that, \<open>kUMonitor\<close> exactly when that support is
  compiled in, bit 1 of \<open>disabled\<close> is clear, the maximum level is at least 7 and ECX bit 5
  of leaf 7 is set; failing both, \<open>kPause\<close>. So the kind it returns is compiled into the
  build, and a vendor kind it returns has its bit clear in \<open>disabled\<close>.
\<close>

theorem DetectSpin_priority:
  "(fst (DetectSpin bld c disabled) = kMonitorX \<longleftrightarrow>
      HWY_ENABLE_MONITORX bld \<and> \<not> bit disabled 0 \<and> IsAMD c \<and>
      bit (abcd_2 (Cpuid c 0x80000001 0)) 29) \<and>
   (fst (DetectSpin bld c disabled) = kUMonitor \<longleftrightarrow>
      \<not> (HWY_ENABLE_MONITORX bld \<and> \<not> bit disabled 0 \<and> IsAMD c \<and>
         bit (abcd_2 (Cpuid c 0x80000001 0)) 29) \<and>
      HWY_ENABLE_UMONITOR bld \<and> \<not> bit disabled 1 \<and> 7 \<le> MaxLevel c \<and>
      bit (abcd_2 (Cpuid c 7 0)) 5) \<and>
   (fst (DetectSpin bld c disabled) = kPause \<longleftrightarrow>
      \<not> (HWY_ENABLE_MONITORX bld \<and> \<not> bit disabled 0 \<and> IsAMD c \<and>
         bit (abcd_2 (Cpuid c 0x80000001 0)) 29) \<and>
      \<not> (HWY_ENABLE_UMONITOR bld \<and> \<not> bit disabled 1 \<and> 7 \<le> MaxLevel c \<and>
         bit (abcd_2 (Cpuid c 7 0)) 5)) \<and>
   compiled bld (fst (DetectSpin bld c disabled)) \<and>
   (fst (DetectSpin bld c disabled) \<noteq> kPause \<longrightarrow>
      \<not> bit disabled (nat (SpinType_int (fst (DetectSpin bld c disabled)))))"
  by (simp add: DetectSpin_defs enabled_iff_bit IsBitSet_iff_bit)

theorem DetectSpin_priority_witness:
  "fst (DetectSpin build_both waitpkg_cpu 1) = kUMonitor \<and>
   fst (DetectSpin build_both waitpkg_cpu 1) \<noteq> kPause \<and>
   compiled build_both (fst (DetectSpin build_both waitpkg_cpu 1)) \<and>
   \<not> bit (1 :: u32) (nat (SpinType_int (fst (DetectSpin build_both waitpkg_cpu 1))))"
  using DetectSpin_priority [of build_both waitpkg_cpu 1]
  by (simp add: detector_eval)

text \<open>
  C4, as the code has it. With \<open>disabled = 1 << kPause\<close> the two vendor kinds stay enabled,
  so the detector still returns one of them, without a warning, where the build and the
  processor have it; it returns \<open>kPause\<close> with exactly one warning in every other case,
  hence on every build that holds neither vendor kind.
\<close>

theorem DetectSpin_Pause_disabled:
  "DetectSpin bld c (push_bit (nat (SpinType_int kPause)) 1) =
     (if HWY_ENABLE_MONITORX bld \<and> IsAMD c \<and> bit (abcd_2 (Cpuid c 0x80000001 0)) 29
      then (kMonitorX, [])
      else if HWY_ENABLE_UMONITOR bld \<and> 7 \<le> MaxLevel c \<and> bit (abcd_2 (Cpuid c 7 0)) 5
      then (kUMonitor, [])
      else (kPause, [Pause_warning]))"
  by (simp add: DetectSpin_defs enabled_iff_bit IsBitSet_iff_bit bit_push_bit_iff)

theorem DetectSpin_Pause_disabled_witness:
  "DetectSpin build_neither monitorx_cpu (push_bit (nat (SpinType_int kPause)) 1)
     = (kPause, [Pause_warning]) \<and>
   DetectSpin build_both plain_cpu (push_bit (nat (SpinType_int kPause)) 1)
     = (kPause, [Pause_warning]) \<and>
   DetectSpin build_both waitpkg_cpu (push_bit (nat (SpinType_int kPause)) 1)
     = (kUMonitor, [])"
  using DetectSpin_Pause_disabled [of build_neither monitorx_cpu]
    DetectSpin_Pause_disabled [of build_both plain_cpu]
    DetectSpin_Pause_disabled [of build_both waitpkg_cpu]
  by (simp add: detector_eval)

text \<open>
  C4, as the claim has it, fails: on a build with \<open>SpinMonitorX\<close> and an AMD processor that
  reports MONITORX, \<open>DetectSpin(1 << kPause)\<close> returns \<open>kMonitorX\<close>, not \<open>kPause\<close>, and emits
  no warning.
\<close>

theorem DetectSpin_Pause_disabled_counterexample:
  "fst (DetectSpin build_both monitorx_cpu (push_bit (nat (SpinType_int kPause)) 1)) = kMonitorX \<and>
   fst (DetectSpin build_both monitorx_cpu (push_bit (nat (SpinType_int kPause)) 1)) \<noteq> kPause \<and>
   length (snd (DetectSpin build_both monitorx_cpu (push_bit (nat (SpinType_int kPause)) 1))) \<noteq> 1"
  by (simp add: detector_eval)

section \<open>\<open>CallWithSpin\<close>\<close>

text \<open>
  C5. For every selector value and every \<open>func\<close>, \<open>CallWithSpin\<close> is one call of \<open>func\<close>:
  on an instance of the class of the selector's kind when the build holds that class,
  and on a \<open>SpinPause\<close> instance for \<open>kPause\<close>, for a kind the build leaves out and for a
  value that is no enumerator. It adds no failure of its own: it is defined on every
  selector, and a \<open>func\<close> that logs its calls has logged exactly one.
\<close>

theorem CallWithSpin_dispatch:
  "(HWY_ENABLE_MONITORX bld \<longrightarrow>
      CallWithSpin bld (SpinType_int kMonitorX) func st = func SpinMonitorX st) \<and>
   (HWY_ENABLE_UMONITOR bld \<longrightarrow>
      CallWithSpin bld (SpinType_int kUMonitor) func st = func SpinUMonitor st) \<and>
   CallWithSpin bld (SpinType_int kPause) func st = func SpinPause st \<and>
   (\<not> HWY_ENABLE_MONITORX bld \<longrightarrow>
      CallWithSpin bld (SpinType_int kMonitorX) func st = func SpinPause st) \<and>
   (\<not> HWY_ENABLE_UMONITOR bld \<longrightarrow>
      CallWithSpin bld (SpinType_int kUMonitor) func st = func SpinPause st) \<and>
   ((\<forall>k. spin_type \<noteq> SpinType_int k) \<longrightarrow>
      CallWithSpin bld spin_type func st = func SpinPause st) \<and>
   (\<exists>spin. CallWithSpin bld spin_type record_instance calls = calls @ [spin])"
proof -
  have "spin_type \<noteq> 0 \<and> spin_type \<noteq> 1" if "\<forall>k. spin_type \<noteq> SpinType_int k"
    using that [rule_format, of kMonitorX] that [rule_format, of kUMonitor] by simp
  then show ?thesis
    by (auto simp: CallWithSpin_def record_instance_def)
qed

theorem CallWithSpin_dispatch_witness:
  "HWY_ENABLE_MONITORX build_both \<and>
   CallWithSpin build_both (SpinType_int kMonitorX) record_instance [] = [SpinMonitorX] \<and>
   HWY_ENABLE_UMONITOR build_both \<and>
   CallWithSpin build_both (SpinType_int kUMonitor) record_instance [] = [SpinUMonitor] \<and>
   CallWithSpin build_both (SpinType_int kPause) record_instance [] = [SpinPause] \<and>
   \<not> HWY_ENABLE_MONITORX build_neither \<and>
   CallWithSpin build_neither (SpinType_int kMonitorX) record_instance [] = [SpinPause] \<and>
   \<not> HWY_ENABLE_UMONITOR build_neither \<and>
   CallWithSpin build_neither (SpinType_int kUMonitor) record_instance [] = [SpinPause] \<and>
   (\<forall>k. 7 \<noteq> SpinType_int k) \<and>
   CallWithSpin build_both 7 record_instance [] = [SpinPause]"
proof -
  have no_enum: "\<forall>k. 7 \<noteq> SpinType_int k"
  proof
    fix k show "7 \<noteq> SpinType_int k" by (cases k) simp_all
  qed
  with CallWithSpin_dispatch [of build_both record_instance "[]" 7 "[]"]
    CallWithSpin_dispatch [of build_neither record_instance "[]" 7 "[]"]
  show ?thesis
    by (simp add: build_both_def build_neither_def record_instance_def)
qed

text \<open>
  C10. \<open>Type\<close> names the class it is called on, and for every kind \<open>k\<close> that the build
  holds, the instance that \<open>CallWithSpin(k, func)\<close> gives to \<open>func\<close> has \<open>Type() == k\<close>.
\<close>

theorem Type_matches_dispatch:
  "Type SpinPause = kPause \<and> Type SpinMonitorX = kMonitorX \<and> Type SpinUMonitor = kUMonitor \<and>
   (compiled bld k \<longrightarrow>
      (\<exists>spin. Type spin = k \<and>
         (\<forall>func st. CallWithSpin bld (SpinType_int k) func st = func spin st)))"
proof (cases k)
  case kMonitorX
  then show ?thesis
    by (auto simp: CallWithSpin_def intro: exI [of _ SpinMonitorX])
next
  case kUMonitor
  then show ?thesis
    by (auto simp: CallWithSpin_def intro: exI [of _ SpinUMonitor])
next
  case kPause
  then show ?thesis
    by (auto simp: CallWithSpin_def intro: exI [of _ SpinPause])
qed

theorem Type_matches_dispatch_witness:
  "compiled build_both kUMonitor \<and>
   (\<exists>spin. Type spin = kUMonitor \<and>
      CallWithSpin build_both (SpinType_int kUMonitor) record_instance [] = [spin])"
proof -
  have c: "compiled build_both kUMonitor"
    by (simp add: build_both_def)
  with Type_matches_dispatch [of build_both kUMonitor]
  obtain spin where "Type spin = kUMonitor"
    and "\<forall>func st. CallWithSpin build_both (SpinType_int kUMonitor) func st
           = func spin (st :: Spin list)"
    by blast
  then have "Type spin = kUMonitor \<and>
      CallWithSpin build_both (SpinType_int kUMonitor) record_instance [] = [spin]"
    by (simp add: record_instance_def)
  with c show ?thesis by blast
qed

end
